theory Spec2Isabelle
  imports Main "HOL-Library.Sublist"
begin

section \<open>Ticket triage workflow: embedding of app/main.py\<close>

text \<open>
  A Python string is a sequence of Unicode code points, here a list of natural numbers;
  \<open>lit\<close> gives the string of a literal of the program text.

  The Unicode tables of the Python runtime are not part of the program. The three
  functions the program takes from them are parameters of the model, collected in a
  record: \<open>str.lower\<close>, \<open>str.upper\<close>, and the class \<open>\d\<close> of the regular expressions
  (every Unicode decimal digit). Every property below holds whatever these functions
  are. \<open>python_ascii\<close> is their restriction to ASCII, to run the model on samples.

  A Python exception is a value of type \<open>error\<close>; a function that may raise returns
  \<open>error + 'a\<close>, with \<open>Inl\<close> for the exception.
\<close>

subsection \<open>Python strings\<close>

type_synonym pystr = "nat list"

definition lit :: "string \<Rightarrow> pystr" where
  "lit s = map of_char s"

record unicode =
  str_lower :: "pystr \<Rightarrow> pystr"
  str_upper :: "pystr \<Rightarrow> pystr"
  re_digit :: "nat \<Rightarrow> bool"

definition ascii_lower :: "nat \<Rightarrow> nat" where
  "ascii_lower c = (if 65 \<le> c \<and> c \<le> 90 then c + 32 else c)"

definition ascii_upper :: "nat \<Rightarrow> nat" where
  "ascii_upper c = (if 97 \<le> c \<and> c \<le> 122 then c - 32 else c)"

definition python_ascii :: unicode where
  "python_ascii =
     \<lparr>str_lower = map ascii_lower,
      str_upper = map ascii_upper,
      re_digit = (\<lambda>c. 48 \<le> c \<and> c \<le> 57)\<rparr>"

text \<open>\<open>needle in haystack\<close> on strings: the needle occurs as a contiguous piece.\<close>

fun str_in :: "pystr \<Rightarrow> pystr \<Rightarrow> bool" where
  "str_in needle [] = (needle = [])"
| "str_in needle (c # cs) = (prefix needle (c # cs) \<or> str_in needle cs)"

text \<open>
  \<open>s.replace(old, new)\<close>: the occurrences of \<open>old\<close> are found from the left and do not
  overlap; with an empty \<open>old\<close>, \<open>new\<close> is put before every character and at the end.
\<close>

function str_replace :: "pystr \<Rightarrow> pystr \<Rightarrow> pystr \<Rightarrow> pystr" where
  "str_replace old new [] = (if old = [] then new else [])"
| "str_replace old new (c # cs) =
     (if old = [] then new @ c # str_replace old new cs
      else if prefix old (c # cs) then new @ str_replace old new (drop (length old) (c # cs))
      else c # str_replace old new cs)"
  by pat_completeness auto
termination
  by (relation "measure (\<lambda>(old, new, s). length s)") auto

text \<open>
  \<open>re.search(r"(ORD\d{4})", text, re.IGNORECASE)\<close>: the leftmost position where the
  three letters and four digits stand; the result is group 1, the seven characters
  matched. With \<open>re.IGNORECASE\<close> each of the letters \<open>O\<close>, \<open>R\<close>, \<open>D\<close> matches itself and
  its lower-case form, and no other character.
\<close>

definition ord_letters :: "pystr \<Rightarrow> bool" where
  "ord_letters s =
     (case s of
        [a, b, c] \<Rightarrow> a \<in> set (lit ''Oo'') \<and> b \<in> set (lit ''Rr'') \<and> c \<in> set (lit ''Dd'')
      | _ \<Rightarrow> False)"

definition match_ord_at :: "unicode \<Rightarrow> pystr \<Rightarrow> pystr option" where
  "match_ord_at U s =
     (if 7 \<le> length s \<and> ord_letters (take 3 s) \<and> list_all (re_digit U) (take 4 (drop 3 s))
      then Some (take 7 s) else None)"

fun re_search_ord :: "unicode \<Rightarrow> pystr \<Rightarrow> pystr option" where
  "re_search_ord U [] = None"
| "re_search_ord U (c # cs) =
     (case match_ord_at U (c # cs) of Some m \<Rightarrow> Some m | None \<Rightarrow> re_search_ord U cs)"

subsection \<open>Errors\<close>

text \<open>
  \<open>ValueError\<close> is what the nodes raise, with a message. \<open>KeyError\<close> comes from
  \<open>o["order_id"]\<close> on a record without that key, \<open>TypeError\<close> from \<open>str.replace\<close> with
  an argument that is not a string.
\<close>

datatype error = ValueError pystr | KeyError pystr | TypeError

subsection \<open>The lookup tables and the state\<close>

text \<open>
  The three tables are loaded from \<open>mock_data/*.json\<close> when the module is imported; the
  files are not part of the sources, so every function takes the table it reads as a
  parameter. A row of \<open>issues.json\<close> has the keys \<open>keyword\<close> and \<open>issue_type\<close>, a row of
  \<open>replies.json\<close> the keys \<open>issue_type\<close> and \<open>template\<close>. An order record is a
  dictionary (\<open>Dict[str, Any]\<close>) from field names to JSON values: a value is a string
  or something else (\<open>null\<close>, a number, a boolean, an array, an object), and the code
  looks into strings only.
\<close>

record issue_row =
  keyword :: pystr
  row_issue_type :: pystr

record reply_row =
  reply_issue_type :: pystr
  template :: pystr

datatype jval = JStr pystr | JOther

type_synonym order_record = "(pystr \<times> jval) list"

text \<open>\<open>d.get(key, default)\<close>: the default is for a missing key only.\<close>

definition dict_get :: "order_record \<Rightarrow> pystr \<Rightarrow> jval \<Rightarrow> jval" where
  "dict_get d k dflt = (case map_of d k of Some v \<Rightarrow> v | None \<Rightarrow> dflt)"

datatype message = HumanMessage pystr

text \<open>
  \<open>TriageState\<close> is a \<open>TypedDict\<close> with \<open>total=False\<close>: every key may be missing, and
  the keys typed \<open>Optional\<close> may hold \<open>None\<close>.
\<close>

datatype 'a field = Missing | PyNone | Val 'a

record TriageState =
  messages :: "message list option"
  ticket_text :: "pystr option"
  order_id :: "pystr field"
  issue_type :: "pystr field"
  evidence :: "pystr field"
  recommendation :: "pystr field"
  order :: "order_record field"
  reply_text :: "pystr field"

text \<open>\<open>state.get(key)\<close>: a missing key and \<open>None\<close> both read as \<open>None\<close>.\<close>

fun field_get :: "'a field \<Rightarrow> 'a option" where
  "field_get Missing = None"
| "field_get PyNone = None"
| "field_get (Val v) = Some v"

text \<open>Storing a value that may be \<open>None\<close> under a key.\<close>

fun field_set :: "'a option \<Rightarrow> 'a field" where
  "field_set None = PyNone"
| "field_set (Some v) = Val v"

text \<open>Truth value of an \<open>Optional[str]\<close>: \<open>None\<close> and the empty string are false.\<close>

fun truthy :: "pystr option \<Rightarrow> bool" where
  "truthy None = False"
| "truthy (Some s) = (s \<noteq> [])"

text \<open>\<open>x or default\<close> on an \<open>Optional[str]\<close>.\<close>

definition str_or :: "pystr option \<Rightarrow> pystr \<Rightarrow> pystr" where
  "str_or x dflt = (case x of None \<Rightarrow> dflt | Some s \<Rightarrow> if truthy (Some s) then s else dflt)"

subsection \<open>Node helpers\<close>

record classification =
  c_issue_type :: pystr
  c_evidence :: pystr
  c_recommendation :: pystr

text \<open>The \<open>for row in ISSUES\<close> loop with its \<open>break\<close>; \<open>other\<close> is the initial value.\<close>

fun scan_issues :: "unicode \<Rightarrow> issue_row list \<Rightarrow> pystr \<Rightarrow> pystr" where
  "scan_issues U [] text_lower = lit ''other''"
| "scan_issues U (row # rows) text_lower =
     (if str_in (str_lower U (keyword row)) text_lower then row_issue_type row
      else scan_issues U rows text_lower)"

definition recommendation_map :: "(pystr \<times> pystr) list" where
  "recommendation_map =
     [(lit ''refund_request'', lit ''Issue a refund after verification.''),
      (lit ''damaged_item'', lit ''Send a replacement and consider partial refund.''),
      (lit ''late_delivery'', lit ''Apologize and offer discount or refund shipping.''),
      (lit ''missing_item'', lit ''Ship the missing item and confirm address.'')]"

definition classify_issue_text :: "unicode \<Rightarrow> issue_row list \<Rightarrow> pystr \<Rightarrow> classification" where
  "classify_issue_text U ISSUES ticket =
     (let text_lower = str_lower U ticket;
          it = scan_issues U ISSUES text_lower
      in \<lparr>c_issue_type = it,
          c_evidence = lit ''Matched keyword for issue_type='' @ it,
          c_recommendation =
            (case map_of recommendation_map it of
               Some r \<Rightarrow> r
             | None \<Rightarrow> lit ''Review ticket manually.'')\<rparr>)"

text \<open>The \<open>for row in REPLIES\<close> loop; \<open>None\<close> when no row has the issue type.\<close>

fun find_template :: "reply_row list \<Rightarrow> pystr \<Rightarrow> pystr option" where
  "find_template [] it = None"
| "find_template (row # rows) it =
     (if reply_issue_type row = it then Some (template row) else find_template rows it)"

definition fallback_template :: pystr where
  "fallback_template =
     lit ''Hi {{customer_name}}, thanks for reaching out about order {{order_id}}. '' @
     lit ''Our team is reviewing your request and will follow up shortly.''"

text \<open>\<open>s.replace(old, new)\<close> where \<open>new\<close> is any value: a \<open>TypeError\<close> unless it is a string.\<close>

fun py_replace :: "pystr \<Rightarrow> pystr \<Rightarrow> jval \<Rightarrow> error + pystr" where
  "py_replace s old (JStr new) = Inr (str_replace old new s)"
| "py_replace s old JOther = Inl TypeError"

definition draft_reply :: "reply_row list \<Rightarrow> pystr \<Rightarrow> order_record \<Rightarrow> error + pystr" where
  "draft_reply REPLIES it ord =
     (let tmpl = (case find_template REPLIES it of Some t \<Rightarrow> t | None \<Rightarrow> fallback_template);
          customer_name = dict_get ord (lit ''customer_name'') (JStr (lit ''there''));
          oid = dict_get ord (lit ''order_id'') (JStr [])
      in case py_replace tmpl (lit ''{{customer_name}}'') customer_name of
           Inl e \<Rightarrow> Inl e
         | Inr named \<Rightarrow> py_replace named (lit ''{{order_id}}'') oid)"

subsection \<open>The nodes\<close>

definition ingest_node :: "unicode \<Rightarrow> TriageState \<Rightarrow> error + TriageState" where
  "ingest_node U state =
     (case ticket_text state of
        None \<Rightarrow> Inl (ValueError (lit ''ticket_text is required in state for ingest_node''))
      | Some ticket \<Rightarrow>
          (let oid0 = field_get (order_id state);
               oid = (if \<not> truthy oid0
                      then (case re_search_ord U ticket of
                              Some m \<Rightarrow> Some (str_upper U m)
                            | None \<Rightarrow> oid0)
                      else oid0);
               msgs = (case messages state of Some ms \<Rightarrow> ms | None \<Rightarrow> []) @ [HumanMessage ticket]
           in Inr (state\<lparr>messages := Some msgs, order_id := field_set oid\<rparr>)))"

definition classify_issue_node ::
  "unicode \<Rightarrow> issue_row list \<Rightarrow> TriageState \<Rightarrow> error + TriageState" where
  "classify_issue_node U ISSUES state =
     (let ticket = str_or (ticket_text state) [];
          c = classify_issue_text U ISSUES ticket
      in Inr (state\<lparr>issue_type := Val (c_issue_type c),
                     evidence := Val (c_evidence c),
                     recommendation := Val (c_recommendation c)\<rparr>))"

text \<open>
  \<open>next((o for o in ORDERS if o["order_id"] == order_id), None)\<close>: the records are
  visited in order, and the scan stops at the first one with the id. A value that is not
  a string is not equal to the id.
\<close>

fun next_order :: "order_record list \<Rightarrow> pystr \<Rightarrow> error + order_record option" where
  "next_order [] oid = Inr None"
| "next_order (o1 # os) oid =
     (case map_of o1 (lit ''order_id'') of
        None \<Rightarrow> Inl (KeyError (lit ''order_id''))
      | Some v \<Rightarrow> if v = JStr oid then Inr (Some o1) else next_order os oid)"

definition fetch_order_node :: "order_record list \<Rightarrow> TriageState \<Rightarrow> error + TriageState" where
  "fetch_order_node ORDERS state =
     (case field_get (order_id state) of
        None \<Rightarrow> Inl (ValueError (lit ''order_id is required before fetch_order_node''))
      | Some oid \<Rightarrow>
          if \<not> truthy (Some oid)
          then Inl (ValueError (lit ''order_id is required before fetch_order_node''))
          else (case next_order ORDERS oid of
                  Inl e \<Rightarrow> Inl e
                | Inr None \<Rightarrow> Inl (ValueError (lit ''order not found for id='' @ oid))
                | Inr (Some ord) \<Rightarrow>
                    if ord = [] then Inl (ValueError (lit ''order not found for id='' @ oid))
                    else Inr (state\<lparr>order := Val ord\<rparr>)))"

definition draft_reply_node :: "reply_row list \<Rightarrow> TriageState \<Rightarrow> error + TriageState" where
  "draft_reply_node REPLIES state =
     (let it = str_or (field_get (issue_type state)) (lit ''other'') in
      case field_get (order state) of
        None \<Rightarrow> Inl (ValueError (lit ''order is required before draft_reply_node''))
      | Some ord \<Rightarrow>
          (case draft_reply REPLIES it ord of
             Inl e \<Rightarrow> Inl e
           | Inr reply \<Rightarrow> Inr (state\<lparr>reply_text := Val reply\<rparr>)))"

subsection \<open>The graph\<close>

text \<open>
  \<open>build_triage_graph\<close> adds the four nodes, makes \<open>ingest\<close> the entry point and chains
  them with four edges: \<open>ingest\<close>, \<open>classify_issue\<close>, \<open>fetch_order\<close>, \<open>draft_reply\<close>,
  \<open>END\<close>. Invoking the compiled graph runs the nodes along the edges, each on the state
  the node before it returned; an exception raised by a node ends the run and reaches the
  caller of \<open>invoke\<close>. \<open>run_nodes\<close> also returns the names of the nodes it has called.
  Message ids, which the \<open>add_messages\<close> reducer of the \<open>messages\<close> key works with, are
  not modelled.
\<close>

type_synonym node = "TriageState \<Rightarrow> error + TriageState"

fun run_nodes :: "(string \<times> node) list \<Rightarrow> TriageState \<Rightarrow> string list \<times> (error + TriageState)" where
  "run_nodes [] state = ([], Inr state)"
| "run_nodes ((name, f) # rest) state =
     (case f state of
        Inl e \<Rightarrow> ([name], Inl e)
      | Inr state' \<Rightarrow> (case run_nodes rest state' of (called, r) \<Rightarrow> (name # called, r)))"

definition build_triage_graph ::
  "unicode \<Rightarrow> issue_row list \<Rightarrow> order_record list \<Rightarrow> reply_row list \<Rightarrow> (string \<times> node) list" where
  "build_triage_graph U ISSUES ORDERS REPLIES =
     [(''ingest'', ingest_node U),
      (''classify_issue'', classify_issue_node U ISSUES),
      (''fetch_order'', fetch_order_node ORDERS),
      (''draft_reply'', draft_reply_node REPLIES)]"

definition graph_invoke ::
  "unicode \<Rightarrow> issue_row list \<Rightarrow> order_record list \<Rightarrow> reply_row list \<Rightarrow> TriageState \<Rightarrow>
     error + TriageState" where
  "graph_invoke U ISSUES ORDERS REPLIES state =
     snd (run_nodes (build_triage_graph U ISSUES ORDERS REPLIES) state)"

definition nodes_called ::
  "unicode \<Rightarrow> issue_row list \<Rightarrow> order_record list \<Rightarrow> reply_row list \<Rightarrow> TriageState \<Rightarrow>
     string list" where
  "nodes_called U ISSUES ORDERS REPLIES state =
     fst (run_nodes (build_triage_graph U ISSUES ORDERS REPLIES) state)"

subsection \<open>The endpoint\<close>

record TriageInput =
  body_ticket_text :: pystr
  body_order_id :: "pystr option"

record triage_response =
  r_order_id :: "pystr option"
  r_issue_type :: "pystr option"
  r_order :: "order_record option"
  r_reply_text :: "pystr option"
  r_evidence :: "pystr option"
  r_recommendation :: "pystr option"

text \<open>
  What \<open>triage_invoke\<close> gives its caller: the JSON body, an \<open>HTTPException\<close> with its
  status code and detail, or an exception it does not catch.
\<close>

datatype outcome = Response triage_response | HTTPException nat pystr | Uncaught error

definition initial_state :: "TriageInput \<Rightarrow> TriageState" where
  "initial_state body =
     \<lparr>messages = Some [],
      ticket_text = Some (body_ticket_text body),
      order_id = field_set (body_order_id body),
      issue_type = PyNone,
      evidence = PyNone,
      recommendation = PyNone,
      order = PyNone,
      reply_text = PyNone\<rparr>"

text \<open>The \<open>except ValueError as e\<close> clause; other exceptions pass through.\<close>

fun http_error :: "error \<Rightarrow> outcome" where
  "http_error (ValueError message) =
     (if str_in (lit ''order_id is required'') message then HTTPException 400 message
      else if str_in (lit ''order not found'') message then HTTPException 404 message
      else HTTPException 500 message)"
| "http_error (KeyError k) = Uncaught (KeyError k)"
| "http_error TypeError = Uncaught TypeError"

definition triage_invoke ::
  "unicode \<Rightarrow> issue_row list \<Rightarrow> order_record list \<Rightarrow> reply_row list \<Rightarrow> TriageInput \<Rightarrow>
     outcome" where
  "triage_invoke U ISSUES ORDERS REPLIES body =
     (case graph_invoke U ISSUES ORDERS REPLIES (initial_state body) of
        Inl e \<Rightarrow> http_error e
      | Inr final_state \<Rightarrow>
          (case field_get (order final_state) of
             None \<Rightarrow> HTTPException 500 (lit ''order missing in final state'')
           | Some ord \<Rightarrow>
               if ord = [] then HTTPException 500 (lit ''order missing in final state'')
               else Response
                 \<lparr>r_order_id = field_get (order_id final_state),
                  r_issue_type = field_get (issue_type final_state),
                  r_order = field_get (order final_state),
                  r_reply_text = field_get (reply_text final_state),
                  r_evidence = field_get (evidence final_state),
                  r_recommendation = field_get (recommendation final_state)\<rparr>))"

subsection \<open>Failure kinds, by name\<close>

text \<open>
  The nodes raise \<open>ValueError\<close> with a message; the kinds of failure are told apart by
  the message.
\<close>

definition MissingField_ticket_text :: error where
  "MissingField_ticket_text =
     ValueError (lit ''ticket_text is required in state for ingest_node'')"

definition MissingField_order_id :: error where
  "MissingField_order_id = ValueError (lit ''order_id is required before fetch_order_node'')"

definition NotFound :: "pystr \<Rightarrow> error" where
  "NotFound oid = ValueError (lit ''order not found for id='' @ oid)"

subsection \<open>Notions the properties are stated with\<close>

text \<open>
  A keyword is a case-insensitive substring of a text when the lower-cased keyword is a
  contiguous piece of the lower-cased text.
\<close>

definition ci_substring :: "unicode \<Rightarrow> pystr \<Rightarrow> pystr \<Rightarrow> bool" where
  "ci_substring U kw txt = (\<exists>pre post. str_lower U txt = pre @ str_lower U kw @ post)"

text \<open>A token \<open>ORD\<close> plus four digits, the letters in any case.\<close>

definition is_ord_token :: "unicode \<Rightarrow> pystr \<Rightarrow> bool" where
  "is_ord_token U m =
     (length m = 7 \<and> ord_letters (take 3 m) \<and> list_all (re_digit U) (drop 3 m))"

text \<open>The token \<open>m\<close> stands in \<open>txt\<close> after \<open>pre\<close>, and no token starts further left.\<close>

definition first_ord_token :: "unicode \<Rightarrow> pystr \<Rightarrow> pystr \<Rightarrow> pystr \<Rightarrow> bool" where
  "first_ord_token U txt pre m =
     (is_ord_token U m \<and> prefix (pre @ m) txt \<and>
      (\<forall>pre' m'. is_ord_token U m' \<and> prefix (pre' @ m') txt \<longrightarrow> length pre \<le> length pre'))"

definition no_ord_token :: "unicode \<Rightarrow> pystr \<Rightarrow> bool" where
  "no_ord_token U txt = (\<forall>pre m. is_ord_token U m \<longrightarrow> \<not> prefix (pre @ m) txt)"

text \<open>Every record of the table has an \<open>order_id\<close>, and none has this one.\<close>

definition no_order_with :: "order_record list \<Rightarrow> pystr \<Rightarrow> bool" where
  "no_order_with ORDERS oid =
     list_all (\<lambda>r. case map_of r (lit ''order_id'') of None \<Rightarrow> False | Some v \<Rightarrow> v \<noteq> JStr oid)
       ORDERS"

text \<open>The template the renderer uses for an issue type.\<close>

definition template_for :: "reply_row list \<Rightarrow> pystr \<Rightarrow> pystr" where
  "template_for REPLIES it =
     (case find (\<lambda>row. reply_issue_type row = it) REPLIES of
        Some row \<Rightarrow> template row
      | None \<Rightarrow> fallback_template)"

text \<open>
  The issue type DraftReply renders for: the one in the state, and \<open>other\<close> when the
  state has none or has the empty string.
\<close>

definition effective_issue_type :: "pystr field \<Rightarrow> pystr" where
  "effective_issue_type f =
     (case f of Val it \<Rightarrow> if it = [] then lit ''other'' else it | _ \<Rightarrow> lit ''other'')"

text \<open>
  The text of a field of an order record: its value when that is a string, the default
  when the record has no such key, and none when the value is not a string.
\<close>

definition field_text :: "order_record \<Rightarrow> pystr \<Rightarrow> pystr \<Rightarrow> pystr option" where
  "field_text ord k dflt =
     (case map_of ord k of None \<Rightarrow> Some dflt | Some (JStr v) \<Rightarrow> Some v | Some JOther \<Rightarrow> None)"

subsection \<open>Sample tables and states\<close>

text \<open>
  Small tables of the shape of the mock data, and the ticket of the repository's tests,
  to run the definitions on.
\<close>

definition sample_issues :: "issue_row list" where
  "sample_issues =
     [\<lparr>keyword = lit ''Damaged'', row_issue_type = lit ''damaged_item''\<rparr>,
      \<lparr>keyword = lit ''late'', row_issue_type = lit ''late_delivery''\<rparr>,
      \<lparr>keyword = lit ''item'', row_issue_type = lit ''missing_item''\<rparr>]"

definition sample_order :: order_record where
  "sample_order =
     [(lit ''order_id'', JStr (lit ''ORD1001'')), (lit ''customer_name'', JStr (lit ''Ava Chen''))]"

definition sample_orders :: "order_record list" where
  "sample_orders = [sample_order, [(lit ''order_id'', JStr (lit ''ORD1005''))]]"

definition sample_replies :: "reply_row list" where
  "sample_replies =
     [\<lparr>reply_issue_type = lit ''damaged_item'',
       template = lit ''Hi {{customer_name}}, a replacement for {{order_id}} is on its way.''\<rparr>,
      \<lparr>reply_issue_type = lit ''other'',
       template = lit ''Hi {{customer_name}}, we are looking into {{order_id}}.''\<rparr>]"

definition sample_ticket :: pystr where
  "sample_ticket = lit ''I received a damaged item in my order ord1001, and late.''"

definition sample_state :: TriageState where
  "sample_state =
     \<lparr>messages = Some [],
      ticket_text = Some sample_ticket,
      order_id = Val (lit ''ORD1001''),
      issue_type = PyNone,
      evidence = PyNone,
      recommendation = PyNone,
      order = Val sample_order,
      reply_text = PyNone\<rparr>"

definition sample_unknown :: TriageInput where
  "sample_unknown =
     \<lparr>body_ticket_text = lit ''My order ORD9999 is late'', body_order_id = None\<rparr>"

definition sample_late :: TriageInput where
  "sample_late =
     \<lparr>body_ticket_text = lit ''Hello, I am checking on order ord1005 which arrived late.'',
      body_order_id = None\<rparr>"

definition sample_no_id :: TriageInput where
  "sample_no_id = \<lparr>body_ticket_text = lit ''My parcel is late'', body_order_id = None\<rparr>"

definition sample_empty_id :: TriageInput where
  "sample_empty_id =
     \<lparr>body_ticket_text = lit ''Please check ord1001'', body_order_id = Some []\<rparr>"

text \<open>An order record whose customer name is not a string.\<close>

definition sample_order_null_name :: order_record where
  "sample_order_null_name =
     [(lit ''order_id'', JStr (lit ''ORD1001'')), (lit ''customer_name'', JOther)]"

section \<open>Properties\<close>

subsection \<open>Literals\<close>

lemma lit_simps [simp]: "lit [] = []" "lit (c # cs) = of_char c # lit cs"
  by (simp_all add: lit_def)

subsection \<open>Substring tests\<close>



lemma map_eq_infixD:
  assumes "map f xs = a @ m @ b"
  shows "\<exists>pre u post. xs = pre @ u @ post \<and> map f u = m"
proof -
  let ?pre = "take (length a) xs"
  let ?u = "take (length m) (drop (length a) xs)"
  let ?post = "drop (length m) (drop (length a) xs)"
  have "xs = ?pre @ ?u @ ?post" by (simp only: append_take_drop_id)
  moreover have "map f ?u = take (length m) (drop (length a) (map f xs))"
    by (simp add: take_map drop_map)
  then have "map f ?u = m" using assms by simp
  ultimately show ?thesis by blast
qed

text \<open>
  When lower-casing works character by character, as it does on ASCII text, the test
  says that some piece of the text equals the keyword up to letter case.
\<close>

lemma ci_substring_charwise:
  assumes "str_lower U = map f"
  shows "ci_substring U kw txt \<longleftrightarrow>
    (\<exists>pre u post. txt = pre @ u @ post \<and> str_lower U u = str_lower U kw)"
proof
  assume "ci_substring U kw txt"
  then obtain a b where "map f txt = a @ map f kw @ b"
    by (auto simp: ci_substring_def assms)
  from map_eq_infixD [OF this] show "\<exists>pre u post. txt = pre @ u @ post \<and> str_lower U u = str_lower U kw"
    by (simp add: assms)
next
  assume "\<exists>pre u post. txt = pre @ u @ post \<and> str_lower U u = str_lower U kw"
  then obtain pre u post where "txt = pre @ u @ post" "map f u = map f kw"
    by (auto simp: assms)
  then have "str_lower U txt = map f pre @ str_lower U kw @ map f post"
    by (simp add: assms)
  then show "ci_substring U kw txt"
    unfolding ci_substring_def by blast
qed

subsection \<open>The order-id pattern\<close>

lemma is_ord_token_length: "is_ord_token U m \<Longrightarrow> length m = 7"
  by (simp add: is_ord_token_def)

lemma match_ord_at_Some_iff: "match_ord_at U s = Some m \<longleftrightarrow> is_ord_token U m \<and> prefix m s"
proof
  assume "match_ord_at U s = Some m"
  then have len: "7 \<le> length s" and low: "ord_letters (take 3 s)"
    and dig: "list_all (re_digit U) (take 4 (drop 3 s))" and m: "m = take 7 s"
    by (auto simp: match_ord_at_def split: if_splits)
  have "drop 3 (take 7 s) = take 4 (drop 3 s)" by (simp add: drop_take)
  with len low dig have "is_ord_token U (take 7 s)"
    by (simp add: is_ord_token_def)
  with m show "is_ord_token U m \<and> prefix m s" by (simp add: take_is_prefix)
next
  assume a: "is_ord_token U m \<and> prefix m s"
  then obtain r where s: "s = m @ r" by (auto simp: prefix_def)
  from a have len: "length m = 7" by (auto dest: is_ord_token_length)
  then have m: "take 7 s = m" by (simp add: s)
  have "take 3 s = take 3 m" "take 4 (drop 3 s) = drop 3 m"
    using len by (simp_all add: s)
  with a len m show "match_ord_at U s = Some m"
    by (simp add: match_ord_at_def is_ord_token_def s)
qed

lemma match_ord_at_None_iff:
  "match_ord_at U s = None \<longleftrightarrow> (\<forall>m. is_ord_token U m \<longrightarrow> \<not> prefix m s)"
proof -
  have "match_ord_at U s = None \<longleftrightarrow> (\<forall>m. match_ord_at U s \<noteq> Some m)" by auto
  then show ?thesis by (simp add: match_ord_at_Some_iff)
qed

lemma no_ord_token_Nil: "no_ord_token U []"
  by (auto simp: no_ord_token_def dest: is_ord_token_length)

lemma no_ord_token_Cons:
  "no_ord_token U (c # cs) \<longleftrightarrow> match_ord_at U (c # cs) = None \<and> no_ord_token U cs"
proof
  assume a: "no_ord_token U (c # cs)"
  have "match_ord_at U (c # cs) = None"
    unfolding match_ord_at_None_iff
  proof (intro allI impI)
    fix m assume "is_ord_token U m"
    with a have "\<not> prefix ([] @ m) (c # cs)" unfolding no_ord_token_def by blast
    then show "\<not> prefix m (c # cs)" by simp
  qed
  moreover have "no_ord_token U cs"
    unfolding no_ord_token_def
  proof (intro allI impI)
    fix pre m assume "is_ord_token U m"
    with a have "\<not> prefix ((c # pre) @ m) (c # cs)" unfolding no_ord_token_def by blast
    then show "\<not> prefix (pre @ m) cs" by simp
  qed
  ultimately show "match_ord_at U (c # cs) = None \<and> no_ord_token U cs" by simp
next
  assume a: "match_ord_at U (c # cs) = None \<and> no_ord_token U cs"
  show "no_ord_token U (c # cs)"
    unfolding no_ord_token_def
  proof (intro allI impI)
    fix pre m assume tok: "is_ord_token U m"
    show "\<not> prefix (pre @ m) (c # cs)"
    proof (cases pre)
      case Nil
      with a tok show ?thesis by (simp add: match_ord_at_None_iff)
    next
      case (Cons p ps)
      from a tok have "\<not> prefix (ps @ m) cs" unfolding no_ord_token_def by blast
      with Cons show ?thesis by simp
    qed
  qed
qed

lemma re_search_ord_None_iff: "re_search_ord U s = None \<longleftrightarrow> no_ord_token U s"
  by (induction s) (auto simp: no_ord_token_Nil no_ord_token_Cons split: option.splits)

lemma re_search_ord_first: "first_ord_token U s pre m \<Longrightarrow> re_search_ord U s = Some m"
proof (induction pre arbitrary: s)
  case Nil
  then have tok: "is_ord_token U m" and pm: "prefix m s" by (simp_all add: first_ord_token_def)
  then have "s \<noteq> []" by (auto dest: is_ord_token_length)
  then obtain c cs where s: "s = c # cs" by (cases s) auto
  from tok pm have "match_ord_at U s = Some m" by (simp add: match_ord_at_Some_iff)
  then show ?case by (simp add: s)
next
  case (Cons p ps)
  then have tok: "is_ord_token U m" and pm: "prefix ((p # ps) @ m) s"
    and least: "\<And>pre' m'. is_ord_token U m' \<Longrightarrow> prefix (pre' @ m') s \<Longrightarrow>
      length (p # ps) \<le> length pre'"
    by (auto simp: first_ord_token_def)
  from pm obtain cs where s: "s = p # cs" and pm': "prefix (ps @ m) cs"
    by (cases s) auto
  have none: "match_ord_at U (p # cs) = None"
  proof (rule ccontr)
    assume "match_ord_at U (p # cs) \<noteq> None"
    then obtain m' where "match_ord_at U (p # cs) = Some m'" by auto
    then have "is_ord_token U m'" "prefix ([] @ m') s"
      by (simp_all add: match_ord_at_Some_iff s)
    from least [OF this] show False by simp
  qed
  have "first_ord_token U cs ps m"
    unfolding first_ord_token_def
  proof (intro conjI allI impI)
    show "is_ord_token U m" by (rule tok)
    show "prefix (ps @ m) cs" by (rule pm')
    fix pre' m' assume "is_ord_token U m' \<and> prefix (pre' @ m') cs"
    then have "is_ord_token U m'" "prefix ((p # pre') @ m') s" by (simp_all add: s)
    from least [OF this] show "length ps \<le> length pre'" by simp
  qed
  from Cons.IH [OF this] none show ?case by (simp add: s)
qed

text \<open>A way to check on a given text that a token is the first one.\<close>

lemma first_ord_tokenI:
  assumes tok: "is_ord_token U m" and pm: "prefix (pre @ m) s"
    and none: "re_search_ord U (take (length pre + 6) s) = None"
  shows "first_ord_token U s pre m"
  unfolding first_ord_token_def
proof (intro conjI allI impI)
  show "is_ord_token U m" by (rule tok)
  show "prefix (pre @ m) s" by (rule pm)
  fix pre' m' assume a: "is_ord_token U m' \<and> prefix (pre' @ m') s"
  show "length pre \<le> length pre'"
  proof (rule ccontr)
    assume "\<not> length pre \<le> length pre'"
    moreover from a have "length m' = 7" by (auto dest: is_ord_token_length)
    ultimately have len: "length (pre' @ m') \<le> length pre + 6"
      by simp
    from a obtain r where "s = (pre' @ m') @ r" by (auto simp: prefix_def)
    with len have "prefix (pre' @ m') (take (length pre + 6) s)"
      by (simp add: prefix_def)
    with a have "\<not> no_ord_token U (take (length pre + 6) s)"
      unfolding no_ord_token_def by blast
    with none show False by (simp add: re_search_ord_None_iff)
  qed
qed

subsection \<open>Scanning the order table\<close>

lemma next_order_none: "no_order_with ORDERS oid \<Longrightarrow> next_order ORDERS oid = Inr None"
  by (induction ORDERS) (auto simp: no_order_with_def split: option.splits)

lemma next_order_first:
  "no_order_with before oid \<Longrightarrow> map_of r (lit ''order_id'') = Some (JStr oid) \<Longrightarrow>
     next_order (before @ r # after) oid = Inr (Some r)"
  by (induction before) (auto simp: no_order_with_def split: option.splits)

lemma next_order_error:
  "next_order ORDERS oid = Inl e \<Longrightarrow> e = KeyError (lit ''order_id'')"
  by (induction ORDERS) (auto split: option.splits if_splits)

subsection \<open>Replacement\<close>

text \<open>
  What \<open>str_replace\<close> computes: a text without \<open>old\<close> is returned as it is, and
  otherwise the leftmost occurrence is replaced and the replacement goes on behind it.
\<close>

lemma str_replace_absent: "old \<noteq> [] \<Longrightarrow> \<not> str_in old s \<Longrightarrow> str_replace old new s = s"
  by (induction s) simp_all

lemma str_replace_first:
  assumes "old \<noteq> []"
    and "\<forall>k<length pre. \<not> prefix old (drop k (pre @ old @ post))"
  shows "str_replace old new (pre @ old @ post) = pre @ new @ str_replace old new post"
  using assms(2)
proof (induction pre)
  case Nil
  from assms(1) obtain c cs where e: "old @ post = c # cs" by (cases old) auto
  have p: "prefix old (c # cs)" unfolding e [symmetric] by simp
  have d: "drop (length old) (c # cs) = post" unfolding e [symmetric] by simp
  have "str_replace old new (c # cs) = new @ str_replace old new post"
    by (simp only: str_replace.simps assms(1) p d if_True if_False)
  then show ?case by (simp add: e)
next
  case (Cons p ps)
  from Cons.prems have "\<not> prefix old (drop 0 ((p # ps) @ old @ post))" by blast
  then have np: "\<not> prefix old (p # (ps @ old @ post))" by simp
  have "\<forall>k<length ps. \<not> prefix old (drop k (ps @ old @ post))"
  proof (intro allI impI)
    fix k assume "k < length ps"
    then have "Suc k < length (p # ps)" by simp
    with Cons.prems have "\<not> prefix old (drop (Suc k) ((p # ps) @ old @ post))" by blast
    then show "\<not> prefix old (drop k (ps @ old @ post))" by simp
  qed
  from Cons.IH [OF this] np assms(1) show ?case by simp
qed

text \<open>
  A character that does not occur in \<open>old\<close> separates the occurrences of \<open>old\<close> before
  it from those after it, so the replacement can be done on the two sides apart.
\<close>

lemma prefix_append_sep:
  assumes "c \<notin> set old"
  shows "prefix old (xs @ c # ys) \<longleftrightarrow> prefix old xs"
proof
  assume "prefix old (xs @ c # ys)"
  then consider "prefix old xs" | us where "old = xs @ us" "prefix us (c # ys)"
    by (auto simp: prefix_append)
  then show "prefix old xs"
  proof cases
    case 1
    then show ?thesis .
  next
    case 2
    with assms have "us = []" by (cases us) auto
    with 2 show ?thesis by simp
  qed
next
  assume "prefix old xs"
  then show "prefix old (xs @ c # ys)" by (simp add: prefix_prefix)
qed

lemma drop_append_le: "n \<le> length zs \<Longrightarrow> drop n (zs @ ws) = drop n zs @ ws"
  by simp

lemma str_replace_sep:
  "c \<notin> set old \<Longrightarrow> old \<noteq> [] \<Longrightarrow>
     str_replace old new (xs @ c # ys) = str_replace old new xs @ str_replace old new (c # ys)"
proof (induction old new xs rule: str_replace.induct)
  case (1 old new)
  then show ?case by simp
next
  case (2 old new x xs)
  note sep = prefix_append_sep [OF "2.prems"(1), of "x # xs" ys]
  show ?case
  proof (cases "prefix old (x # xs)")
    case True
    then have "length old \<le> length (x # xs)" by (rule prefix_length_le)
    then have d: "drop (length old) ((x # xs) @ c # ys) = drop (length old) (x # xs) @ c # ys"
      by (rule drop_append_le)
    from True sep have p: "prefix old (x # (xs @ c # ys))" by simp
    have ih: "str_replace old new (drop (length old) (x # xs) @ c # ys) =
        str_replace old new (drop (length old) (x # xs)) @ str_replace old new (c # ys)"
      by (rule "2.IH"(2) [OF "2.prems"(2) True "2.prems"])
    have "str_replace old new ((x # xs) @ c # ys) =
            new @ str_replace old new (drop (length old) ((x # xs) @ c # ys))"
      using p "2.prems"(2) by simp
    also have "\<dots> = new @ str_replace old new (drop (length old) (x # xs)) @
        str_replace old new (c # ys)"
      by (simp only: d ih)
    also have "\<dots> = str_replace old new (x # xs) @ str_replace old new (c # ys)"
      using True "2.prems"(2) by simp
    finally show ?thesis .
  next
    case False
    with sep have p: "\<not> prefix old (x # (xs @ c # ys))" by simp
    have ih: "str_replace old new (xs @ c # ys) =
        str_replace old new xs @ str_replace old new (c # ys)"
      by (rule "2.IH"(3) [OF "2.prems"(2) False "2.prems"])
    have "str_replace old new ((x # xs) @ c # ys) = x # str_replace old new (xs @ c # ys)"
      using p "2.prems"(2) by simp
    also have "\<dots> = x # str_replace old new xs @ str_replace old new (c # ys)"
      by (simp only: ih)
    also have "\<dots> = str_replace old new (x # xs) @ str_replace old new (c # ys)"
      using False "2.prems"(2) by simp
    finally show ?thesis .
  qed
qed

text \<open>The fallback template, rendered.\<close>

lemma fallback_customer_name:
  "str_replace (lit ''{{customer_name}}'') name fallback_template =
     lit ''Hi '' @ name @ lit '', thanks for reaching out about order {{order_id}}. '' @
     lit ''Our team is reviewing your request and will follow up shortly.''"
  by (simp add: fallback_template_def)

lemma fallback_rendered:
  "str_replace (lit ''{{order_id}}'') oid
     (str_replace (lit ''{{customer_name}}'') name fallback_template) =
     lit ''Hi '' @ str_replace (lit ''{{order_id}}'') oid name @
     lit '', thanks for reaching out about order '' @ oid @
     lit ''. Our team is reviewing your request and will follow up shortly.''"
  unfolding fallback_customer_name
  by (simp add: str_replace_sep)

lemma find_template_find:
  "find_template REPLIES it =
     map_option template (find (\<lambda>row. reply_issue_type row = it) REPLIES)"
  by (induction REPLIES) simp_all

lemma str_or_effective: "str_or (field_get f) (lit ''other'') = effective_issue_type f"
  by (cases f) (simp_all add: str_or_def effective_issue_type_def)

lemma draft_reply_template_for:
  assumes "field_text ord (lit ''customer_name'') (lit ''there'') = Some name"
    and "field_text ord (lit ''order_id'') [] = Some oid"
  shows "draft_reply REPLIES it ord =
     Inr (str_replace (lit ''{{order_id}}'') oid
            (str_replace (lit ''{{customer_name}}'') name (template_for REPLIES it)))"
proof -
  from assms(1) have n: "dict_get ord (lit ''customer_name'') (JStr (lit ''there'')) = JStr name"
    by (auto simp: field_text_def dict_get_def split: option.splits jval.splits)
  from assms(2) have i: "dict_get ord (lit ''order_id'') (JStr []) = JStr oid"
    by (auto simp: field_text_def dict_get_def split: option.splits jval.splits)
  have t: "(case find_template REPLIES it of Some t \<Rightarrow> t | None \<Rightarrow> fallback_template) =
      template_for REPLIES it"
    by (simp add: template_for_def find_template_find split: option.splits)
  show ?thesis
    unfolding draft_reply_def Let_def t n i by simp
qed

text \<open>A value that is not a string makes the renderer fail.\<close>

lemma py_replace_cases:
  "py_replace s old v = (case v of JStr n \<Rightarrow> Inr (str_replace old n s) | JOther \<Rightarrow> Inl TypeError)"
  by (cases v) simp_all

lemma draft_reply_type_error:
  "field_text ord (lit ''customer_name'') (lit ''there'') = None \<or>
   field_text ord (lit ''order_id'') [] = None \<Longrightarrow>
     draft_reply REPLIES it ord = Inl TypeError"
  by (auto simp: draft_reply_def Let_def field_text_def dict_get_def py_replace_cases
      split: option.splits jval.splits)

subsection \<open>Runs of the sample data\<close>



lemma sample_unknown_search:
  "re_search_ord python_ascii (lit ''My order ORD9999 is late'') = Some (lit ''ORD9999'')"
  by code_simp

lemma sample_unknown_upper: "str_upper python_ascii (lit ''ORD9999'') = lit ''ORD9999''"
  by code_simp

lemma sample_unknown_next: "next_order sample_orders (lit ''ORD9999'') = Inr None"
  by code_simp

lemma sample_late_first:
  "first_ord_token python_ascii
     (lit ''Hello, I am checking on order ord1005 which arrived late.'')
     (lit ''Hello, I am checking on order '') (lit ''ord1005'')"
  by (rule first_ord_tokenI; code_simp)

lemma sample_no_id_none: "no_ord_token python_ascii (lit ''My parcel is late'')"
  unfolding re_search_ord_None_iff [symmetric] by code_simp

lemma sample_late_upper: "str_upper python_ascii (lit ''ord1005'') = lit ''ORD1005''"
  by code_simp

lemma sample_ingest:
  "ingest_node python_ascii sample_state =
     Inr (sample_state\<lparr>messages := Some [HumanMessage sample_ticket]\<rparr>)"
  by code_simp

lemma sample_classify:
  "classify_issue_node python_ascii sample_issues sample_state =
     Inr (sample_state
            \<lparr>issue_type := Val (lit ''damaged_item''),
             evidence := Val (lit ''Matched keyword for issue_type=damaged_item''),
             recommendation := Val (lit ''Send a replacement and consider partial refund.'')\<rparr>)"
  by code_simp

lemma sample_fetch: "fetch_order_node sample_orders sample_state = Inr sample_state"
  by code_simp

lemma sample_draft:
  "draft_reply_node sample_replies sample_state =
     Inr (sample_state\<lparr>reply_text := Val (lit ''Hi Ava Chen, we are looking into ORD1001.'')\<rparr>)"
  by code_simp

subsection \<open>The stages own their fields\<close>

text \<open>
  Claim C1. Whatever the input state, a stage that returns a state has changed only the
  fields it owns: Ingest \<open>messages\<close> and \<open>order_id\<close>; Classify \<open>issue_type\<close>,
  \<open>evidence\<close> and \<open>recommendation\<close>; FetchOrder \<open>order\<close>; DraftReply \<open>reply_text\<close>.
  Every other field of the result equals the field of the input; \<open>ticket_text\<close> is
  changed by no stage.
\<close>

theorem stage_frame:
  "(ingest_node U s = Inr s1 \<longrightarrow>
      ticket_text s1 = ticket_text s \<and> issue_type s1 = issue_type s \<and> evidence s1 = evidence s \<and>
      recommendation s1 = recommendation s \<and> order s1 = order s \<and> reply_text s1 = reply_text s) \<and>
   (classify_issue_node U ISSUES s = Inr s2 \<longrightarrow>
      messages s2 = messages s \<and> ticket_text s2 = ticket_text s \<and> order_id s2 = order_id s \<and>
      order s2 = order s \<and> reply_text s2 = reply_text s) \<and>
   (fetch_order_node ORDERS s = Inr s3 \<longrightarrow>
      messages s3 = messages s \<and> ticket_text s3 = ticket_text s \<and> order_id s3 = order_id s \<and>
      issue_type s3 = issue_type s \<and> evidence s3 = evidence s \<and>
      recommendation s3 = recommendation s \<and> reply_text s3 = reply_text s) \<and>
   (draft_reply_node REPLIES s = Inr s4 \<longrightarrow>
      messages s4 = messages s \<and> ticket_text s4 = ticket_text s \<and> order_id s4 = order_id s \<and>
      issue_type s4 = issue_type s \<and> evidence s4 = evidence s \<and>
      recommendation s4 = recommendation s \<and> order s4 = order s)"
proof (intro conjI impI)
  assume "ingest_node U s = Inr s1"
  then have "\<exists>m oid. s1 = s\<lparr>messages := m, order_id := oid\<rparr>"
    by (auto simp: ingest_node_def Let_def split: option.splits)
  then obtain m oid where s1: "s1 = s\<lparr>messages := m, order_id := oid\<rparr>" by blast
  show "ticket_text s1 = ticket_text s" "issue_type s1 = issue_type s" "evidence s1 = evidence s"
    "recommendation s1 = recommendation s" "order s1 = order s" "reply_text s1 = reply_text s"
    by (simp_all add: s1)
next
  assume "classify_issue_node U ISSUES s = Inr s2"
  then have "\<exists>a b c. s2 = s\<lparr>issue_type := a, evidence := b, recommendation := c\<rparr>"
    by (auto simp: classify_issue_node_def Let_def)
  then obtain a b c where s2: "s2 = s\<lparr>issue_type := a, evidence := b, recommendation := c\<rparr>"
    by blast
  show "messages s2 = messages s" "ticket_text s2 = ticket_text s" "order_id s2 = order_id s"
    "order s2 = order s" "reply_text s2 = reply_text s"
    by (simp_all add: s2)
next
  assume "fetch_order_node ORDERS s = Inr s3"
  then have "\<exists>ord. s3 = s\<lparr>order := ord\<rparr>"
    by (auto simp: fetch_order_node_def split: option.splits sum.splits if_splits)
  then obtain ord where s3: "s3 = s\<lparr>order := ord\<rparr>" by blast
  show "messages s3 = messages s" "ticket_text s3 = ticket_text s" "order_id s3 = order_id s"
    "issue_type s3 = issue_type s" "evidence s3 = evidence s"
    "recommendation s3 = recommendation s" "reply_text s3 = reply_text s"
    by (simp_all add: s3)
next
  assume "draft_reply_node REPLIES s = Inr s4"
  then have "\<exists>r. s4 = s\<lparr>reply_text := r\<rparr>"
    by (auto simp: draft_reply_node_def Let_def split: option.splits sum.splits)
  then obtain r where s4: "s4 = s\<lparr>reply_text := r\<rparr>" by blast
  show "messages s4 = messages s" "ticket_text s4 = ticket_text s" "order_id s4 = order_id s"
    "issue_type s4 = issue_type s" "evidence s4 = evidence s"
    "recommendation s4 = recommendation s" "order s4 = order s"
    by (simp_all add: s4)
qed

theorem stage_frame_witness:
  "\<exists>s1 s2 s3 s4.
     ingest_node python_ascii sample_state = Inr s1 \<and>
     classify_issue_node python_ascii sample_issues sample_state = Inr s2 \<and>
     fetch_order_node sample_orders sample_state = Inr s3 \<and>
     draft_reply_node sample_replies sample_state = Inr s4 \<and>
     ticket_text s1 = ticket_text sample_state \<and> reply_text s1 = reply_text sample_state \<and>
     ticket_text s2 = ticket_text sample_state \<and> order_id s2 = order_id sample_state \<and>
     ticket_text s3 = ticket_text sample_state \<and> issue_type s3 = issue_type sample_state \<and>
     ticket_text s4 = ticket_text sample_state \<and> order s4 = order sample_state"
proof -
  obtain s1 where s1: "ingest_node python_ascii sample_state = Inr s1"
    using sample_ingest by blast
  obtain s2 where s2: "classify_issue_node python_ascii sample_issues sample_state = Inr s2"
    using sample_classify by blast
  obtain s3 where s3: "fetch_order_node sample_orders sample_state = Inr s3"
    using sample_fetch by blast
  obtain s4 where s4: "draft_reply_node sample_replies sample_state = Inr s4"
    using sample_draft by blast
  from stage_frame [of python_ascii sample_state s1 sample_issues s2 sample_orders s3
      sample_replies s4] s1 s2 s3 s4
  show ?thesis by simp
qed

subsection \<open>Ingest\<close>

text \<open>
  Claim C4, as amended. On a state with \<open>ticket_text\<close>, Ingest returns a state. When
  \<open>order_id\<close> is missing, \<open>None\<close> or the empty string: if the text has a token \<open>ORD\<close>
  plus four digits, in any letter case, \<open>order_id\<close> becomes the upper-case form of the
  leftmost one; if the text has no such token, \<open>order_id\<close> reads as before (\<open>None\<close>, or
  the empty string). When \<open>order_id\<close> is a non-empty string it is kept, and nothing is
  extracted. The digits are the characters \<open>\d\<close> matches, and the upper-case form is
  that of \<open>str.upper\<close>.
\<close>

theorem ingest_order_id:
  assumes "ticket_text s = Some txt"
  shows "\<exists>s'. ingest_node U s = Inr s' \<and>
    (\<not> truthy (field_get (order_id s)) \<and> first_ord_token U txt pre m \<longrightarrow>
       order_id s' = Val (str_upper U m)) \<and>
    (\<not> truthy (field_get (order_id s)) \<and> no_ord_token U txt \<longrightarrow>
       field_get (order_id s') = field_get (order_id s)) \<and>
    (truthy (field_get (order_id s)) \<longrightarrow> order_id s' = order_id s)"
proof -
  let ?s' = "projr (ingest_node U s)"
  have r: "ingest_node U s = Inr ?s'"
    using assms by (simp add: ingest_node_def Let_def)
  have a: "order_id ?s' = Val (str_upper U m)"
    if "\<not> truthy (field_get (order_id s))" "first_ord_token U txt pre m"
    using assms that re_search_ord_first [OF that(2)]
    by (simp add: ingest_node_def Let_def)
  have b: "field_get (order_id ?s') = field_get (order_id s)"
    if "\<not> truthy (field_get (order_id s))" "no_ord_token U txt"
  proof -
    from that(2) have "re_search_ord U txt = None" by (simp add: re_search_ord_None_iff)
    with assms that(1) show ?thesis
      by (cases "field_get (order_id s)") (simp_all add: ingest_node_def Let_def)
  qed
  have c: "order_id ?s' = order_id s" if "truthy (field_get (order_id s))"
    using assms that by (cases "order_id s") (simp_all add: ingest_node_def Let_def)
  from r a b c show ?thesis by blast
qed

theorem ingest_order_id_witness:
  "first_ord_token python_ascii (body_ticket_text sample_late)
     (lit ''Hello, I am checking on order '') (lit ''ord1005'') \<and>
   (\<exists>s'. ingest_node python_ascii (initial_state sample_late) = Inr s' \<and>
      order_id s' = Val (lit ''ORD1005'')) \<and>
   no_ord_token python_ascii (body_ticket_text sample_no_id) \<and>
   (\<exists>s'. ingest_node python_ascii (initial_state sample_no_id) = Inr s' \<and>
      field_get (order_id s') = None) \<and>
   (\<exists>s'. ingest_node python_ascii sample_state = Inr s' \<and> order_id s' = Val (lit ''ORD1001''))"
proof -
  have t1: "ticket_text (initial_state sample_late) = Some (body_ticket_text sample_late)"
    and f1: "\<not> truthy (field_get (order_id (initial_state sample_late)))"
    by (simp_all add: initial_state_def sample_late_def)
  have tok: "first_ord_token python_ascii (body_ticket_text sample_late)
      (lit ''Hello, I am checking on order '') (lit ''ord1005'')"
    using sample_late_first by (simp add: sample_late_def)
  have t2: "ticket_text (initial_state sample_no_id) = Some (body_ticket_text sample_no_id)"
    and f2: "field_get (order_id (initial_state sample_no_id)) = None"
    by (simp_all add: initial_state_def sample_no_id_def)
  have none: "no_ord_token python_ascii (body_ticket_text sample_no_id)"
    using sample_no_id_none by (simp add: sample_no_id_def)
  have t3: "ticket_text sample_state = Some sample_ticket"
    and f3: "truthy (field_get (order_id sample_state))"
      "order_id sample_state = Val (lit ''ORD1001'')"
    by (simp_all add: sample_state_def)
  from ingest_order_id [OF t1, of python_ascii "lit ''Hello, I am checking on order ''"
      "lit ''ord1005''"] f1 tok
  have a: "\<exists>s'. ingest_node python_ascii (initial_state sample_late) = Inr s' \<and>
      order_id s' = Val (lit ''ORD1005'')"
    by (auto simp only: sample_late_upper)
  from ingest_order_id [OF t2, of python_ascii] f2 none
  have b: "\<exists>s'. ingest_node python_ascii (initial_state sample_no_id) = Inr s' \<and>
      field_get (order_id s') = None"
    by auto
  from ingest_order_id [OF t3, of python_ascii] f3
  have c: "\<exists>s'. ingest_node python_ascii sample_state = Inr s' \<and>
      order_id s' = Val (lit ''ORD1001'')"
    by auto
  from tok a none b c show ?thesis by blast
qed

text \<open>An \<open>order_id\<close> supplied as the empty string is replaced by the extracted one.\<close>

theorem ingest_order_id_counterexample:
  "order_id (initial_state sample_empty_id) = Val [] \<and>
   ingest_node python_ascii (initial_state sample_empty_id) =
     Inr ((initial_state sample_empty_id)
            \<lparr>messages := Some [HumanMessage (lit ''Please check ord1001'')],
             order_id := Val (lit ''ORD1001'')\<rparr>)"
  by code_simp

subsection \<open>A failing FetchOrder ends the run\<close>

text \<open>
  Claim C2. When the run reaches \<open>fetch_order\<close> and that node raises (whatever the
  error: the missing \<open>order_id\<close>, the unknown id), the graph has called \<open>ingest\<close>,
  \<open>classify_issue\<close> and \<open>fetch_order\<close> and nothing else, so \<open>draft_reply\<close> is not
  called; the run gives the caller that error and no state, hence no \<open>reply_text\<close>.
  When the run was started by \<open>triage_invoke\<close>, the endpoint answers with the outcome
  of its \<open>except\<close> clause for that error, which is never a response body.
\<close>

theorem fetch_failure_halts:
  assumes "ingest_node U s = Inr s1"
    and "classify_issue_node U ISSUES s1 = Inr s2"
    and "fetch_order_node ORDERS s2 = Inl e"
  shows "nodes_called U ISSUES ORDERS REPLIES s = [''ingest'', ''classify_issue'', ''fetch_order''] \<and>
         ''draft_reply'' \<notin> set (nodes_called U ISSUES ORDERS REPLIES s) \<and>
         graph_invoke U ISSUES ORDERS REPLIES s = Inl e \<and>
         (s = initial_state body \<longrightarrow>
            triage_invoke U ISSUES ORDERS REPLIES body = http_error e \<and>
            (\<forall>r. http_error e \<noteq> Response r))"
proof -
  have g: "graph_invoke U ISSUES ORDERS REPLIES s = Inl e"
    using assms by (simp add: graph_invoke_def build_triage_graph_def)
  have n: "nodes_called U ISSUES ORDERS REPLIES s = [''ingest'', ''classify_issue'', ''fetch_order'']"
    using assms by (simp add: nodes_called_def build_triage_graph_def)
  have r: "\<forall>r. http_error e \<noteq> Response r"
    by (cases e) simp_all
  have t: "triage_invoke U ISSUES ORDERS REPLIES body = http_error e" if "s = initial_state body"
    using g that by (simp add: triage_invoke_def)
  from g n r t show ?thesis by simp
qed

theorem fetch_failure_halts_witness:
  "\<exists>s1 s2.
     ingest_node python_ascii (initial_state sample_unknown) = Inr s1 \<and>
     classify_issue_node python_ascii sample_issues s1 = Inr s2 \<and>
     fetch_order_node sample_orders s2 = Inl (NotFound (lit ''ORD9999'')) \<and>
     nodes_called python_ascii sample_issues sample_orders sample_replies
       (initial_state sample_unknown) = [''ingest'', ''classify_issue'', ''fetch_order''] \<and>
     graph_invoke python_ascii sample_issues sample_orders sample_replies
       (initial_state sample_unknown) = Inl (NotFound (lit ''ORD9999'')) \<and>
     triage_invoke python_ascii sample_issues sample_orders sample_replies sample_unknown =
       HTTPException 404 (lit ''order not found for id=ORD9999'')"
proof -
  have "ticket_text (initial_state sample_unknown) = Some (lit ''My order ORD9999 is late'')"
    "field_get (order_id (initial_state sample_unknown)) = None"
    by (simp_all add: initial_state_def sample_unknown_def)
  with sample_unknown_search sample_unknown_upper
  obtain s1 where s1: "ingest_node python_ascii (initial_state sample_unknown) = Inr s1"
    and o1: "order_id s1 = Val (lit ''ORD9999'')"
    by (simp add: ingest_node_def Let_def del: re_search_ord.simps)
  obtain s2 where s2: "classify_issue_node python_ascii sample_issues s1 = Inr s2"
    and o2: "order_id s2 = order_id s1"
    by (simp add: classify_issue_node_def Let_def)
  from sample_unknown_next o1 o2
  have s3: "fetch_order_node sample_orders s2 = Inl (NotFound (lit ''ORD9999''))"
    by (simp add: fetch_order_node_def NotFound_def)
  have h: "http_error (NotFound (lit ''ORD9999'')) =
      HTTPException 404 (lit ''order not found for id=ORD9999'')"
    by code_simp
  from fetch_failure_halts [OF s1 s2 s3, of sample_replies sample_unknown] s1 s2 s3 h
  show ?thesis by simp
qed

subsection \<open>Classification\<close>




text \<open>
  Claim C8, as amended. The recommendation Classify stores is the entry of the
  recommendation lookup for the issue type it stores, and the fixed string
  \<open>Review ticket manually.\<close> for \<open>other\<close> and for every issue type the lookup does not
  have.
\<close>

theorem classify_recommendation:
  "\<exists>s1 it. classify_issue_node U ISSUES s = Inr s1 \<and> issue_type s1 = Val it \<and>
     recommendation s1 = Val
       (if it = lit ''refund_request'' then lit ''Issue a refund after verification.''
        else if it = lit ''damaged_item''
          then lit ''Send a replacement and consider partial refund.''
        else if it = lit ''late_delivery''
          then lit ''Apologize and offer discount or refund shipping.''
        else if it = lit ''missing_item'' then lit ''Ship the missing item and confirm address.''
        else lit ''Review ticket manually.'')"
  by (simp add: classify_issue_node_def classify_issue_text_def Let_def recommendation_map_def)

text \<open>With an empty keyword table the issue type is \<open>other\<close>, and the recommendation is
  not the string \<open>review manually\<close>.\<close>

theorem classify_recommendation_counterexample:
  "classify_issue_node python_ascii [] sample_state =
     Inr (sample_state\<lparr>issue_type := Val (lit ''other''),
                        evidence := Val (lit ''Matched keyword for issue_type=other''),
                        recommendation := Val (lit ''Review ticket manually.'')\<rparr>) \<and>
   lit ''Review ticket manually.'' \<noteq> lit ''review manually''"
  by code_simp

text \<open>
  Claim C9. Classify never fails, and classifying the state it returns gives that state
  again; two states with the same \<open>ticket_text\<close> get the same \<open>issue_type\<close>,
  \<open>evidence\<close> and \<open>recommendation\<close>.
\<close>

theorem classify_idempotent_deterministic:
  "(\<exists>s1. classify_issue_node U ISSUES s = Inr s1 \<and> classify_issue_node U ISSUES s1 = Inr s1) \<and>
   (ticket_text s = ticket_text t \<longrightarrow>
      (\<exists>s1 t1. classify_issue_node U ISSUES s = Inr s1 \<and> classify_issue_node U ISSUES t = Inr t1 \<and>
         issue_type s1 = issue_type t1 \<and> evidence s1 = evidence t1 \<and>
         recommendation s1 = recommendation t1))"
  by (simp add: classify_issue_node_def Let_def)

theorem classify_idempotent_deterministic_witness:
  "ticket_text sample_state =
     ticket_text (sample_state\<lparr>order_id := PyNone, reply_text := Val (lit ''x'')\<rparr>) \<and>
   (\<exists>s1 t1. classify_issue_node python_ascii sample_issues sample_state = Inr s1 \<and>
      classify_issue_node python_ascii sample_issues
        (sample_state\<lparr>order_id := PyNone, reply_text := Val (lit ''x'')\<rparr>) = Inr t1 \<and>
      classify_issue_node python_ascii sample_issues s1 = Inr s1 \<and>
      issue_type s1 = issue_type t1 \<and> evidence s1 = evidence t1 \<and>
      recommendation s1 = recommendation t1)"
  using classify_idempotent_deterministic
    [of python_ascii sample_issues sample_state
      "sample_state\<lparr>order_id := PyNone, reply_text := Val (lit ''x'')\<rparr>"]
  by auto

subsection \<open>FetchOrder\<close>

text \<open>
  Claim C5, as amended. FetchOrder raises the error of a missing \<open>order_id\<close> exactly
  when \<open>order_id\<close> is missing, \<open>None\<close> or the empty string, and then it raises no
  not-found error. With a non-empty \<open>order_id\<close>: if every record of the table has an
  \<open>order_id\<close> and none has this one, it raises the not-found error of that id and
  returns no state; if a record has this id, and the records before it have other ids,
  it returns the state with \<open>order\<close> set to that record.
\<close>

theorem fetch_order_cases:
  "(fetch_order_node ORDERS s = Inl MissingField_order_id \<longleftrightarrow>
      \<not> truthy (field_get (order_id s))) \<and>
   (\<not> truthy (field_get (order_id s)) \<longrightarrow>
      (\<forall>x. fetch_order_node ORDERS s \<noteq> Inl (NotFound x))) \<and>
   (order_id s = Val oid \<and> oid \<noteq> [] \<and> no_order_with ORDERS oid \<longrightarrow>
      fetch_order_node ORDERS s = Inl (NotFound oid)) \<and>
   (order_id s = Val oid \<and> oid \<noteq> [] \<and> ORDERS = before @ r # after \<and>
    no_order_with before oid \<and> map_of r (lit ''order_id'') = Some (JStr oid) \<longrightarrow>
      fetch_order_node ORDERS s = Inr (s\<lparr>order := Val r\<rparr>))"
proof (intro conjI impI)
  show "fetch_order_node ORDERS s = Inl MissingField_order_id \<longleftrightarrow>
      \<not> truthy (field_get (order_id s))"
    by (auto simp: fetch_order_node_def MissingField_order_id_def
        split: option.splits sum.splits dest: next_order_error)
next
  assume "\<not> truthy (field_get (order_id s))"
  then show "\<forall>x. fetch_order_node ORDERS s \<noteq> Inl (NotFound x)"
    by (auto simp: fetch_order_node_def NotFound_def split: option.splits)
next
  assume "order_id s = Val oid \<and> oid \<noteq> [] \<and> no_order_with ORDERS oid"
  then show "fetch_order_node ORDERS s = Inl (NotFound oid)"
    by (simp add: fetch_order_node_def NotFound_def next_order_none)
next
  assume a: "order_id s = Val oid \<and> oid \<noteq> [] \<and> ORDERS = before @ r # after \<and>
    no_order_with before oid \<and> map_of r (lit ''order_id'') = Some (JStr oid)"
  then have "next_order ORDERS oid = Inr (Some r)" "r \<noteq> []"
    by (auto simp: next_order_first simp del: lit_simps)
  with a show "fetch_order_node ORDERS s = Inr (s\<lparr>order := Val r\<rparr>)"
    by (simp add: fetch_order_node_def)
qed

theorem fetch_order_cases_witness:
  "fetch_order_node sample_orders (sample_state\<lparr>order_id := Missing\<rparr>) =
     Inl MissingField_order_id \<and>
   no_order_with sample_orders (lit ''ORD9999'') \<and>
   fetch_order_node sample_orders (sample_state\<lparr>order_id := Val (lit ''ORD9999'')\<rparr>) =
     Inl (NotFound (lit ''ORD9999'')) \<and>
   no_order_with [sample_order] (lit ''ORD1005'') \<and>
   fetch_order_node sample_orders (sample_state\<lparr>order_id := Val (lit ''ORD1005'')\<rparr>) =
     Inr (sample_state\<lparr>order_id := Val (lit ''ORD1005''),
            order := Val [(lit ''order_id'', JStr (lit ''ORD1005''))]\<rparr>)"
proof -
  have n1: "no_order_with sample_orders (lit ''ORD9999'')" by code_simp
  have n2: "no_order_with [sample_order] (lit ''ORD1005'')" by code_simp
  have split: "sample_orders = [sample_order] @ [(lit ''order_id'', JStr (lit ''ORD1005''))] # []"
    by (simp add: sample_orders_def)
  have key: "map_of [(lit ''order_id'', JStr (lit ''ORD1005''))] (lit ''order_id'') =
      Some (JStr (lit ''ORD1005''))"
    by simp
  have ne: "lit ''ORD9999'' \<noteq> []" "lit ''ORD1005'' \<noteq> []" by simp_all
  from fetch_order_cases [of sample_orders "sample_state\<lparr>order_id := Missing\<rparr>"]
  have a: "fetch_order_node sample_orders (sample_state\<lparr>order_id := Missing\<rparr>) =
      Inl MissingField_order_id"
    by simp
  from fetch_order_cases
    [of sample_orders "sample_state\<lparr>order_id := Val (lit ''ORD9999'')\<rparr>" "lit ''ORD9999''"]
    n1 ne(1)
  have b: "fetch_order_node sample_orders (sample_state\<lparr>order_id := Val (lit ''ORD9999'')\<rparr>) =
      Inl (NotFound (lit ''ORD9999''))"
    by simp
  from fetch_order_cases
    [of sample_orders "sample_state\<lparr>order_id := Val (lit ''ORD1005'')\<rparr>" "lit ''ORD1005''"
      "[sample_order]" "[(lit ''order_id'', JStr (lit ''ORD1005''))]" "[]"]
    n2 split key ne(2)
  have c: "fetch_order_node sample_orders (sample_state\<lparr>order_id := Val (lit ''ORD1005'')\<rparr>) =
      Inr (sample_state\<lparr>order_id := Val (lit ''ORD1005''),
            order := Val [(lit ''order_id'', JStr (lit ''ORD1005''))]\<rparr>)"
    by simp
  from a n1 b n2 c show ?thesis by blast
qed

text \<open>An \<open>order_id\<close> that is in the state, as the empty string, gives the error of a
  missing \<open>order_id\<close>.\<close>

theorem fetch_order_cases_counterexample:
  "order_id (initial_state sample_empty_id) = Val [] \<and>
   fetch_order_node sample_orders (initial_state sample_empty_id) = Inl MissingField_order_id"
  by code_simp

text \<open>
  Claim C10. When \<open>order_id\<close> is in the state and is the empty string, FetchOrder raises
  the error of a missing \<open>order_id\<close>, and not the not-found error of any id.
\<close>

theorem fetch_order_empty_order_id:
  "order_id s = Val [] \<Longrightarrow>
     fetch_order_node ORDERS s = Inl MissingField_order_id \<and>
     (\<forall>oid. fetch_order_node ORDERS s \<noteq> Inl (NotFound oid))"
  by (simp add: fetch_order_node_def MissingField_order_id_def NotFound_def)

theorem fetch_order_empty_order_id_witness:
  "order_id (sample_state\<lparr>order_id := Val []\<rparr>) = Val [] \<and>
   fetch_order_node sample_orders (sample_state\<lparr>order_id := Val []\<rparr>) =
     Inl MissingField_order_id \<and>
   (\<forall>oid. fetch_order_node sample_orders (sample_state\<lparr>order_id := Val []\<rparr>) \<noteq>
      Inl (NotFound oid))"
  using fetch_order_empty_order_id [of "sample_state\<lparr>order_id := Val []\<rparr>" sample_orders]
  by auto

subsection \<open>DraftReply\<close>

lemma sample_field_text:
  "field_text sample_order (lit ''customer_name'') (lit ''there'') = Some (lit ''Ava Chen'')"
  "field_text sample_order (lit ''order_id'') [] = Some (lit ''ORD1001'')"
  by code_simp+

lemma sample_reply_damaged:
  "str_replace (lit ''{{order_id}}'') (lit ''ORD1001'')
     (str_replace (lit ''{{customer_name}}'') (lit ''Ava Chen'')
        (template_for sample_replies (lit ''damaged_item''))) =
   lit ''Hi Ava Chen, a replacement for ORD1001 is on its way.''"
  by code_simp

lemma sample_reply_fallback:
  "find (\<lambda>row. reply_issue_type row = lit ''late_delivery'') sample_replies = None"
  "lit ''Hi '' @ str_replace (lit ''{{order_id}}'') (lit ''ORD1001'') (lit ''Ava Chen'') @
     lit '', thanks for reaching out about order '' @ lit ''ORD1001'' @
     lit ''. Our team is reviewing your request and will follow up shortly.'' =
   lit ''Hi Ava Chen, thanks for reaching out about order ORD1001. Our team is reviewing your request and will follow up shortly.''"
  by code_simp+

text \<open>
  Claim C6, as amended. On a state with an order record whose \<open>customer_name\<close> and
  \<open>order_id\<close>, where the record has them, are strings, DraftReply does not fail. It
  takes the template of the first row of the reply table for the issue type of the state
  (for \<open>other\<close> when the state has no issue type or the empty string), and the fixed
  fallback template when no row has it; it replaces every \<open>{{customer_name}}\<close> by the
  customer name of the order (\<open>there\<close> without one), then every \<open>{{order_id}}\<close> by the
  id of the order (the empty string without one), and stores the result as
  \<open>reply_text\<close>. With the fallback template the result is the text of the template with
  both placeholders replaced, which is not empty.
\<close>

theorem draft_reply_node_renders:
  assumes "order s = Val ord"
    and "field_text ord (lit ''customer_name'') (lit ''there'') = Some name"
    and "field_text ord (lit ''order_id'') [] = Some oid"
  shows "draft_reply_node REPLIES s =
      Inr (s\<lparr>reply_text := Val
        (str_replace (lit ''{{order_id}}'') oid
           (str_replace (lit ''{{customer_name}}'') name
              (template_for REPLIES (effective_issue_type (issue_type s)))))\<rparr>) \<and>
    (find (\<lambda>row. reply_issue_type row = effective_issue_type (issue_type s)) REPLIES = None \<longrightarrow>
       draft_reply_node REPLIES s =
         Inr (s\<lparr>reply_text := Val
           (lit ''Hi '' @ str_replace (lit ''{{order_id}}'') oid name @
            lit '', thanks for reaching out about order '' @ oid @
            lit ''. Our team is reviewing your request and will follow up shortly.'')\<rparr>) \<and>
       lit ''Hi '' @ str_replace (lit ''{{order_id}}'') oid name @
         lit '', thanks for reaching out about order '' @ oid @
         lit ''. Our team is reviewing your request and will follow up shortly.'' \<noteq> [])"
proof -
  have r: "draft_reply_node REPLIES s =
      Inr (s\<lparr>reply_text := Val
        (str_replace (lit ''{{order_id}}'') oid
           (str_replace (lit ''{{customer_name}}'') name
              (template_for REPLIES (effective_issue_type (issue_type s)))))\<rparr>)"
    using assms(1) draft_reply_template_for [OF assms(2,3)]
    by (simp add: draft_reply_node_def str_or_effective del: lit_simps)
  show ?thesis
  proof (intro conjI impI)
    show "draft_reply_node REPLIES s =
      Inr (s\<lparr>reply_text := Val
        (str_replace (lit ''{{order_id}}'') oid
           (str_replace (lit ''{{customer_name}}'') name
              (template_for REPLIES (effective_issue_type (issue_type s)))))\<rparr>)"
      by (rule r)
  next
    assume "find (\<lambda>row. reply_issue_type row = effective_issue_type (issue_type s)) REPLIES = None"
    then have t: "template_for REPLIES (effective_issue_type (issue_type s)) = fallback_template"
      by (simp add: template_for_def)
    show "draft_reply_node REPLIES s =
         Inr (s\<lparr>reply_text := Val
           (lit ''Hi '' @ str_replace (lit ''{{order_id}}'') oid name @
            lit '', thanks for reaching out about order '' @ oid @
            lit ''. Our team is reviewing your request and will follow up shortly.'')\<rparr>)"
      by (simp only: r t fallback_rendered)
  next
    show "lit ''Hi '' @ str_replace (lit ''{{order_id}}'') oid name @
         lit '', thanks for reaching out about order '' @ oid @
         lit ''. Our team is reviewing your request and will follow up shortly.'' \<noteq> []"
      by simp
  qed
qed

theorem draft_reply_node_renders_witness:
  "order sample_state = Val sample_order \<and>
   field_text sample_order (lit ''customer_name'') (lit ''there'') = Some (lit ''Ava Chen'') \<and>
   field_text sample_order (lit ''order_id'') [] = Some (lit ''ORD1001'') \<and>
   draft_reply_node sample_replies (sample_state\<lparr>issue_type := Val (lit ''damaged_item'')\<rparr>) =
     Inr (sample_state\<lparr>issue_type := Val (lit ''damaged_item''),
            reply_text := Val (lit ''Hi Ava Chen, a replacement for ORD1001 is on its way.'')\<rparr>) \<and>
   find (\<lambda>row. reply_issue_type row = lit ''late_delivery'') sample_replies = None \<and>
   draft_reply_node sample_replies (sample_state\<lparr>issue_type := Val (lit ''late_delivery'')\<rparr>) =
     Inr (sample_state\<lparr>issue_type := Val (lit ''late_delivery''),
            reply_text := Val (lit ''Hi Ava Chen, thanks for reaching out about order ORD1001. Our team is reviewing your request and will follow up shortly.'')\<rparr>)"
proof -
  let ?d = "sample_state\<lparr>issue_type := Val (lit ''damaged_item'')\<rparr>"
  let ?l = "sample_state\<lparr>issue_type := Val (lit ''late_delivery'')\<rparr>"
  have o: "order sample_state = Val sample_order"
    by (simp add: sample_state_def)
  have od: "order ?d = Val sample_order" and ol: "order ?l = Val sample_order"
    by (simp_all add: sample_state_def)
  have ed: "effective_issue_type (issue_type ?d) = lit ''damaged_item''"
    and el: "effective_issue_type (issue_type ?l) = lit ''late_delivery''"
    by (simp_all add: effective_issue_type_def)
  from draft_reply_node_renders [OF od sample_field_text, of sample_replies]
  have "draft_reply_node sample_replies ?d =
      Inr (?d\<lparr>reply_text := Val
        (str_replace (lit ''{{order_id}}'') (lit ''ORD1001'')
           (str_replace (lit ''{{customer_name}}'') (lit ''Ava Chen'')
              (template_for sample_replies (lit ''damaged_item''))))\<rparr>)"
    unfolding ed by blast
  then have a: "draft_reply_node sample_replies ?d =
      Inr (?d\<lparr>reply_text := Val (lit ''Hi Ava Chen, a replacement for ORD1001 is on its way.'')\<rparr>)"
    by (simp only: sample_reply_damaged)
  from draft_reply_node_renders [OF ol sample_field_text, of sample_replies]
    sample_reply_fallback(1)
  have "draft_reply_node sample_replies ?l =
     Inr (?l\<lparr>reply_text := Val
       (lit ''Hi '' @ str_replace (lit ''{{order_id}}'') (lit ''ORD1001'') (lit ''Ava Chen'') @
        lit '', thanks for reaching out about order '' @ lit ''ORD1001'' @
        lit ''. Our team is reviewing your request and will follow up shortly.'')\<rparr>)"
    unfolding el by blast
  then have b: "draft_reply_node sample_replies ?l =
     Inr (?l\<lparr>reply_text := Val (lit ''Hi Ava Chen, thanks for reaching out about order ORD1001. Our team is reviewing your request and will follow up shortly.'')\<rparr>)"
    by (simp only: sample_reply_fallback(2))
  from o sample_field_text a sample_reply_fallback(1) b show ?thesis by blast
qed

text \<open>
  With the empty string as issue type, no row of the table has that issue type, yet the
  reply is the template of \<open>other\<close> and not the fallback, which is what rendering for
  the empty string gives. And an order record whose customer name is not a string makes
  DraftReply fail.
\<close>

theorem draft_reply_node_renders_counterexample:
  "issue_type (sample_state\<lparr>issue_type := Val []\<rparr>) = Val [] \<and>
   find_template sample_replies [] = None \<and>
   draft_reply sample_replies [] sample_order =
     Inr (lit ''Hi Ava Chen, thanks for reaching out about order ORD1001. Our team is reviewing your request and will follow up shortly.'') \<and>
   draft_reply_node sample_replies (sample_state\<lparr>issue_type := Val []\<rparr>) =
     Inr (sample_state\<lparr>issue_type := Val [],
            reply_text := Val (lit ''Hi Ava Chen, we are looking into ORD1001.'')\<rparr>) \<and>
   draft_reply_node sample_replies (sample_state\<lparr>order := Val sample_order_null_name\<rparr>) =
     Inl TypeError"
  by code_simp

subsection \<open>The endpoint and the Ingest failure\<close>

text \<open>
  Ingest fails on a state without \<open>ticket_text\<close> and on no other. The state the
  endpoint builds has \<open>ticket_text\<close>, so in a run the endpoint starts Ingest returns a
  state and the run does not end with the Ingest failure; the \<open>except\<close> clause of the
  endpoint, which would give that failure the status 500, does not get it.
\<close>

lemma ingest_node_fails_iff:
  "ingest_node U s = Inl e \<longleftrightarrow> ticket_text s = None \<and> e = MissingField_ticket_text"
  by (auto simp: ingest_node_def Let_def MissingField_ticket_text_def split: option.splits)

lemma ingest_initial_state: "\<exists>s1. ingest_node U (initial_state body) = Inr s1"
  by (simp add: ingest_node_def Let_def initial_state_def)

lemma fetch_order_node_errors:
  "fetch_order_node ORDERS s = Inl e \<Longrightarrow>
     e = MissingField_order_id \<or> e = KeyError (lit ''order_id'') \<or> (\<exists>oid. e = NotFound oid)"
  by (auto simp: fetch_order_node_def MissingField_order_id_def NotFound_def
      split: option.splits sum.splits if_splits dest: next_order_error)

lemma draft_reply_node_errors:
  "draft_reply_node REPLIES s = Inl e \<Longrightarrow>
     e = ValueError (lit ''order is required before draft_reply_node'') \<or> e = TypeError"
  by (auto simp: draft_reply_node_def draft_reply_def Let_def py_replace_cases
      split: option.splits sum.splits jval.splits)

lemma graph_invoke_initial_state:
  "graph_invoke U ISSUES ORDERS REPLIES (initial_state body) \<noteq> Inl MissingField_ticket_text"
proof -
  obtain s1 where s1: "ingest_node U (initial_state body) = Inr s1"
    using ingest_initial_state by blast
  obtain s2 where s2: "classify_issue_node U ISSUES s1 = Inr s2"
    by (simp add: classify_issue_node_def Let_def)
  show ?thesis
  proof (cases "fetch_order_node ORDERS s2")
    case (Inl e)
    with s1 s2 have "graph_invoke U ISSUES ORDERS REPLIES (initial_state body) = Inl e"
      by (simp add: graph_invoke_def build_triage_graph_def)
    moreover from fetch_order_node_errors [OF Inl] have "e \<noteq> MissingField_ticket_text"
      by (auto simp: MissingField_ticket_text_def MissingField_order_id_def NotFound_def)
    ultimately show ?thesis by simp
  next
    case (Inr s3)
    show ?thesis
    proof (cases "draft_reply_node REPLIES s3")
      case (Inl e)
      with s1 s2 Inr have "graph_invoke U ISSUES ORDERS REPLIES (initial_state body) = Inl e"
        by (simp add: graph_invoke_def build_triage_graph_def)
      moreover from draft_reply_node_errors [OF Inl] have "e \<noteq> MissingField_ticket_text"
        by (auto simp: MissingField_ticket_text_def)
      ultimately show ?thesis by simp
    next
      case (Inr s4)
      with s1 s2 \<open>fetch_order_node ORDERS s2 = Inr s3\<close>
      have "graph_invoke U ISSUES ORDERS REPLIES (initial_state body) = Inr s4"
        by (simp add: graph_invoke_def build_triage_graph_def)
      then show ?thesis by simp
    qed
  qed
qed

lemma http_error_ticket_text:
  "http_error MissingField_ticket_text =
     HTTPException 500 (lit ''ticket_text is required in state for ingest_node'')"
  by code_simp

end
